theory Spec2Isabelle
  imports Main
begin

section \<open>Process environment and start-up errors\<close>

text \<open>
  The scripts read their credentials from the process environment (\<^verbatim>\<open>os.getenv\<close>);
  two of them first call \<^verbatim>\<open>load_dotenv()\<close>, which copies the bindings of the
  \<^verbatim>\<open>.env\<close> file into the environment without replacing a variable that is already
  set. A process is modelled by its environment and by the bindings of the
  \<^verbatim>\<open>.env\<close> file on disk (the empty map when there is no file).
  Variable names are case sensitive, as on POSIX systems.
\<close>

record process =
  environ :: "string \<rightharpoonup> string"
  dotenv_file :: "string \<rightharpoonup> string"

definition load_dotenv :: "process \<Rightarrow> process" where
  "load_dotenv p = p\<lparr>environ := dotenv_file p ++ environ p\<rparr>"

definition getenv :: "process \<Rightarrow> string \<Rightarrow> string option" where
  "getenv p k = environ p k"

text \<open>Python's truth value of \<^verbatim>\<open>not v\<close> for an optional string: \<^verbatim>\<open>None\<close> and
  the empty string are falsy.\<close>

fun py_not :: "string option \<Rightarrow> bool" where
  "py_not None = True"
| "py_not (Some v) = (v = [])"

datatype error =
    ValueError string
  | EOFError
  | RemoteInvocationFailed string

section \<open>Library objects built by the scripts\<close>

text \<open>
  The client, model, run configuration and agent are objects of the agent library.
  The scripts only construct them and hand them to \<^verbatim>\<open>Runner\<close>; they are modelled as
  records of the keyword arguments the scripts pass. An argument a script leaves out
  is \<open>None\<close>.
\<close>

record provider =
  api_key :: "string option"
  base_url :: string

record chat_model =
  openai_client :: provider
  model_id :: string

record run_config =
  cfg_model :: chat_model
  model_provider :: provider
  tracing_disabled :: bool

datatype tool = WebSearchTool

record agent =
  name :: string
  instructions :: string
  agent_model :: "chat_model option"
  tools :: "tool list"

text \<open>A message of the conversation is the dictionary
  \<^verbatim>\<open>{"role": ..., "content": ...}\<close>.\<close>

record history_entry =
  role :: string
  content :: string

datatype run_input = Text string | History "history_entry list"

record run_result =
  final_output :: string

text \<open>
  One call of \<^verbatim>\<open>Runner.run\<close> / \<^verbatim>\<open>Runner.run_sync\<close>: the agent, the input and the
  \<^verbatim>\<open>run_config\<close> keyword argument (\<open>None\<close> when the call does not pass one).
  The runner itself is the remote collaborator: a parameter of the model, which
  either raises or returns a result.
\<close>

record invocation =
  inv_agent :: agent
  inv_input :: run_input
  inv_config :: "run_config option"

type_synonym runner = "agent \<Rightarrow> run_input \<Rightarrow> run_config option \<Rightarrow> error + run_result"

definition gemini_base_url :: string where
  "gemini_base_url = ''https://generativelanguage.googleapis.com/v1beta/openai/''"

section \<open>config.py\<close>

definition config_py :: "process \<Rightarrow> error + run_config" where
  "config_py p =
     (let GOOGLE_API_KEY = getenv p ''GOOGLE_API_KEY'' in
      if py_not GOOGLE_API_KEY
      then Inl (ValueError ''GOOGLE_API_KEY is not set. Please check your .env file.'')
      else
        let external_client = \<lparr>api_key = GOOGLE_API_KEY, base_url = gemini_base_url\<rparr>;
            model = \<lparr>openai_client = external_client, model_id = ''gemini-2.0-flash''\<rparr>
        in Inr \<lparr>cfg_model = model, model_provider = external_client,
                 tracing_disabled = True\<rparr>)"

section \<open>news\_agent.py\<close>

text \<open>
  Strings are sequences of code points below 256. \<^verbatim>\<open>str.lower\<close> maps the capital
  letters of that range (A to Z, and the accented capitals 192 to 222 except the
  multiplication sign 215) to the letter 32 places further, and leaves every other
  code point alone.
\<close>

definition lower_char :: "char \<Rightarrow> char" where
  "lower_char c =
     (let n = (of_char c :: nat) in
      if (65 \<le> n \<and> n \<le> 90) \<or> (192 \<le> n \<and> n \<le> 222 \<and> n \<noteq> 215)
      then char_of (n + 32) else c)"

definition lower :: "string \<Rightarrow> string" where
  "lower s = map lower_char s"

definition newline :: string where
  "newline = [CHR 0x0A]"

definition news_agent :: agent where
  "news_agent =
     \<lparr>name = ''News Agent'',
      instructions =
        newline
        @ ''    You are a news agent that can search the web for the latest news on the given topic.''
        @ newline
        @ ''    Compile the information you find into a single paragraph concise summary. No markdown, just plain text.''
        @ newline @ ''    '',
      agent_model = None,
      tools = [WebSearchTool]\<rparr>"

text \<open>
  The state of the command-line script: what it has written to standard output and
  the calls of the runner it has made. \<^verbatim>\<open>input(prompt)\<close> writes the prompt and
  returns the next line of standard input without its line end; at the end of the
  input it raises \<^verbatim>\<open>EOFError\<close>. \<^verbatim>\<open>print(s)\<close> writes \<open>s\<close> and a line end.
\<close>

record cli_state =
  stdout :: string
  invocations :: "invocation list"

definition prompt :: string where
  "prompt = ''Enter a topic to search for news (or '' @ [CHR 0x27] @ ''exit''
              @ [CHR 0x27] @ '' to quit): ''"

definition write_stdout :: "string \<Rightarrow> cli_state \<Rightarrow> cli_state" where
  "write_stdout s st = st\<lparr>stdout := stdout st @ s\<rparr>"

definition print :: "string \<Rightarrow> cli_state \<Rightarrow> cli_state" where
  "print s st = write_stdout (s @ newline) st"

definition run_sync :: "runner \<Rightarrow> agent \<Rightarrow> run_input \<Rightarrow> run_config option \<Rightarrow> cli_state
                         \<Rightarrow> (error + run_result) \<times> cli_state" where
  "run_sync run a i c st =
     (run a i c,
      st\<lparr>invocations := invocations st @ [\<lparr>inv_agent = a, inv_input = i, inv_config = c\<rparr>]\<rparr>)"

text \<open>
  The \<^verbatim>\<open>while True\<close> loop reads one line per iteration, so it is a recursion over
  the lines of standard input. The result is \<open>Inr ()\<close> when the loop is left by
  \<^verbatim>\<open>break\<close> (the script then ends, with exit code 0) and \<open>Inl e\<close> when an exception
  leaves the loop: nothing in the script catches it, the process ends with it.
\<close>

fun cli_loop :: "runner \<Rightarrow> string list \<Rightarrow> cli_state \<Rightarrow> (error + unit) \<times> cli_state" where
  "cli_loop run [] st = (Inl EOFError, write_stdout prompt st)"
| "cli_loop run (query # rest) st =
     (let st1 = write_stdout prompt st in
      if lower query = ''exit'' then (Inr (), st1)
      else
        (case run_sync run news_agent (Text query) None st1 of
           (Inl e, st2) \<Rightarrow> (Inl e, st2)
         | (Inr result, st2) \<Rightarrow>
             cli_loop run rest
               (print (newline @ replicate 50 CHR ''='' @ newline)
                 (print (final_output result)
                   (print (newline @ ''Result:'') st2)))))"

definition news_agent_py :: "runner \<Rightarrow> process \<Rightarrow> string list \<Rightarrow> (error + unit) \<times> cli_state" where
  "news_agent_py run p0 lines =
     (let p = load_dotenv p0;
          api_key = getenv p ''OPENAI_API_KEY'';
          st = \<lparr>stdout = [], invocations = []\<rparr>
      in if py_not api_key
         then (Inl (ValueError ''OPENAI_API_KEY environment variable not set.''), st)
         else cli_loop run lines st)"

text \<open>The exit code of the interpreter: 0 when the script runs to its end, 1 when
  an exception is not caught.\<close>

fun exit_code :: "error + unit \<Rightarrow> nat" where
  "exit_code (Inr _) = 0"
| "exit_code (Inl _) = 1"

section \<open>02\_chatbot.py\<close>

text \<open>
  The module level of the chat script: \<^verbatim>\<open>load_dotenv()\<close>, then the provider, the
  model, the run configuration and the agent. The script reads the variable
  \<^verbatim>\<open>Google_API_KEY\<close> and passes what \<^verbatim>\<open>os.getenv\<close> returns to the client
  as it is.
\<close>

record chatbot_globals =
  g_provider :: provider
  g_model :: chat_model
  g_config :: run_config
  g_agent :: agent

definition chatbot_py :: "process \<Rightarrow> chatbot_globals" where
  "chatbot_py p0 =
     (let p = load_dotenv p0;
          provider = \<lparr>api_key = getenv p ''Google_API_KEY'', base_url = gemini_base_url\<rparr>;
          model = \<lparr>openai_client = provider, model_id = ''gemini-2.5-flash''\<rparr>;
          config = \<lparr>cfg_model = model, model_provider = provider, tracing_disabled = True\<rparr>;
          agent = \<lparr>name = ''simple agent'',
                   instructions = ''You are a helpful assistant that can answer user questions.'',
                   agent_model = Some model, tools = []\<rparr>
      in \<lparr>g_provider = provider, g_model = model, g_config = config, g_agent = agent\<rparr>)"

text \<open>
  The handlers share Python list objects through \<^verbatim>\<open>cl.user_session\<close>:
  \<^verbatim>\<open>get\<close> returns the stored list itself, and \<^verbatim>\<open>append\<close> changes it in place.
  The state therefore has a store of list objects, addressed by natural numbers
  (\<open>next_addr\<close> is the first address not yet given out), the key/value dictionary of
  every session, which holds addresses, the messages sent to each session's user
  interface, and the calls of the runner made so far.
\<close>

type_synonym addr = nat
type_synonym session_id = nat

record chat_state =
  heap :: "addr \<Rightarrow> history_entry list"
  next_addr :: addr
  user_session :: "session_id \<Rightarrow> string \<rightharpoonup> addr"
  channel :: "(session_id \<times> string) list"
  chat_invocations :: "invocation list"

datatype cl_message = Message (msg_content: string)

text \<open>The expression \<^verbatim>\<open>[]\<close>: a new, empty list object.\<close>

definition new_list :: "chat_state \<Rightarrow> addr \<times> chat_state" where
  "new_list s =
     (next_addr s, s\<lparr>heap := (heap s)(next_addr s := []), next_addr := Suc (next_addr s)\<rparr>)"

text \<open>\<^verbatim>\<open>xs.append(x)\<close> on the list object at address \<open>a\<close>.\<close>

definition list_append :: "addr \<Rightarrow> history_entry \<Rightarrow> chat_state \<Rightarrow> chat_state" where
  "list_append a x s = s\<lparr>heap := (heap s)(a := heap s a @ [x])\<rparr>"

text \<open>
  Modelled from the spec: the session store \<^verbatim>\<open>cl.user_session\<close> belongs to the chat
  framework. \<^verbatim>\<open>set\<close> attaches a value to a key of the current session; \<^verbatim>\<open>get\<close>
  returns the current reference (shared, not copied), or the default when the key
  was never set.
\<close>

definition user_session_set :: "session_id \<Rightarrow> string \<Rightarrow> addr \<Rightarrow> chat_state \<Rightarrow> chat_state" where
  "user_session_set sid k a s =
     s\<lparr>user_session := (user_session s)(sid := (user_session s sid)(k \<mapsto> a))\<rparr>"

definition user_session_get :: "session_id \<Rightarrow> string \<Rightarrow> addr \<Rightarrow> chat_state \<Rightarrow> addr" where
  "user_session_get sid k dflt s =
     (case user_session s sid k of Some a \<Rightarrow> a | None \<Rightarrow> dflt)"

text \<open>\<^verbatim>\<open>await cl.Message(content=c).send()\<close>: one message on the session's
  caller-visible channel.\<close>

definition send :: "session_id \<Rightarrow> string \<Rightarrow> chat_state \<Rightarrow> chat_state" where
  "send sid c s = s\<lparr>channel := channel s @ [(sid, c)]\<rparr>"

definition run_async :: "runner \<Rightarrow> agent \<Rightarrow> run_input \<Rightarrow> run_config option \<Rightarrow> chat_state
                          \<Rightarrow> (error + run_result) \<times> chat_state" where
  "run_async run a i c s =
     (run a i c,
      s\<lparr>chat_invocations :=
           chat_invocations s @ [\<lparr>inv_agent = a, inv_input = i, inv_config = c\<rparr>]\<rparr>)"

definition start_chat :: "session_id \<Rightarrow> chat_state \<Rightarrow> chat_state" where
  "start_chat sid s =
     (let (a, s1) = new_list s;
          s2 = user_session_set sid ''history'' a s1
      in send sid ''Hello! I am your assistant. How can I help you today?'' s2)"

text \<open>
  The message handler. The default \<^verbatim>\<open>[]\<close> of \<^verbatim>\<open>get\<close> is a new list object on
  every call. The runner receives the list as it is at the call. An exception of the
  runner leaves the handler at the \<^verbatim>\<open>await\<close>: the handler has no \<^verbatim>\<open>try\<close>, so
  the statements after the call are not run and the exception is the handler's
  result.
\<close>

definition handle_msg ::
  "runner \<Rightarrow> chatbot_globals \<Rightarrow> session_id \<Rightarrow> cl_message \<Rightarrow> chat_state
     \<Rightarrow> (error + unit) \<times> chat_state" where
  "handle_msg run g sid message s =
     (let (dflt, s1) = new_list s;
          history = user_session_get sid ''history'' dflt s1;
          s2 = list_append history \<lparr>role = ''user'', content = msg_content message\<rparr> s1
      in case run_async run (g_agent g) (History (heap s2 history)) (Some (g_config g)) s2 of
           (Inl e, s3) \<Rightarrow> (Inl e, s3)
         | (Inr result, s3) \<Rightarrow>
             (let s4 = list_append history
                         \<lparr>role = ''assistant'', content = final_output result\<rparr> s3;
                  s5 = user_session_set sid ''history'' history s4
              in (Inr (), send sid (final_output result) s5)))"

text \<open>
  The framework calls the message handler once for every message of a session, in
  order, and goes on with the next message whatever the handler's result was.
\<close>

fun on_messages ::
  "runner \<Rightarrow> chatbot_globals \<Rightarrow> session_id \<Rightarrow> cl_message list \<Rightarrow> chat_state
     \<Rightarrow> (error + unit) list \<times> chat_state" where
  "on_messages run g sid [] s = ([], s)"
| "on_messages run g sid (m # ms) s =
     (let (r, s1) = handle_msg run g sid m s;
          (rs, s2) = on_messages run g sid ms s1
      in (r # rs, s2))"

text \<open>The conversation history of a session: the list stored under the key
  \<^verbatim>\<open>"history"\<close>, empty when the key was never set.\<close>

definition history_of :: "chat_state \<Rightarrow> session_id \<Rightarrow> history_entry list" where
  "history_of s sid =
     (case user_session s sid ''history'' of Some a \<Rightarrow> heap s a | None \<Rightarrow> [])"

section \<open>Auxiliary notions for the statements\<close>

text \<open>The call the command-line loop makes for a query, and the call the message
  handler makes for a history.\<close>

definition news_call :: "string \<Rightarrow> invocation" where
  "news_call query = \<lparr>inv_agent = news_agent, inv_input = Text query, inv_config = None\<rparr>"

definition chat_call :: "chatbot_globals \<Rightarrow> history_entry list \<Rightarrow> invocation" where
  "chat_call g h =
     \<lparr>inv_agent = g_agent g, inv_input = History h, inv_config = Some (g_config g)\<rparr>"

definition user_entry :: "cl_message \<Rightarrow> history_entry" where
  "user_entry m = \<lparr>role = ''user'', content = msg_content m\<rparr>"

definition assistant_entry :: "run_result \<Rightarrow> history_entry" where
  "assistant_entry r = \<lparr>role = ''assistant'', content = final_output r\<rparr>"

text \<open>The input of a call is a history whose most recent entry is a user message.\<close>

fun ends_with_user :: "run_input \<Rightarrow> bool" where
  "ends_with_user (History h) = (h \<noteq> [] \<and> role (last h) = ''user'')"
| "ends_with_user (Text _) = False"

text \<open>The session's history list is the object at address \<open>a\<close>, which was given
  out before: what \<^verbatim>\<open>start_chat\<close> establishes and the handler keeps.\<close>

definition started :: "chat_state \<Rightarrow> session_id \<Rightarrow> addr \<Rightarrow> bool" where
  "started s sid a = (user_session s sid ''history'' = Some a \<and> a < next_addr s)"

text \<open>Python's \<^verbatim>\<open>str.isspace\<close> on one code point below 256: the characters that
  \<^verbatim>\<open>str.strip\<close> would remove.\<close>

definition isspace :: "char \<Rightarrow> bool" where
  "isspace c = ((of_char c :: nat) \<in> {9, 10, 11, 12, 13, 28, 29, 30, 31, 32, 133, 160})"

subsection \<open>Stub runners and concrete inputs\<close>

text \<open>A runner that fails exactly on the query \<^verbatim>\<open>bad\<close> (on a history: when the
  most recent message is \<^verbatim>\<open>bad\<close>) and answers \<^verbatim>\<open>ok\<close> otherwise.\<close>

fun stub_runner :: runner where
  "stub_runner a (Text q) c =
     (if q = ''bad'' then Inl (RemoteInvocationFailed ''bad'')
      else Inr \<lparr>final_output = ''ok''\<rparr>)"
| "stub_runner a (History h) c =
     (if h \<noteq> [] \<and> content (last h) = ''bad'' then Inl (RemoteInvocationFailed ''bad'')
      else Inr \<lparr>final_output = ''ok''\<rparr>)"

definition cli_init :: cli_state where
  "cli_init = \<lparr>stdout = [], invocations = []\<rparr>"

definition chat_init :: chat_state where
  "chat_init = \<lparr>heap = (\<lambda>_. []), next_addr = 0, user_session = (\<lambda>_. Map.empty),
                 channel = [], chat_invocations = []\<rparr>"

text \<open>A process with every key set; one with no key in the environment but a
  \<^verbatim>\<open>.env\<close> file that defines them; one whose keys are all the empty string.\<close>

definition proc_keys :: process where
  "proc_keys =
     \<lparr>environ = [''OPENAI_API_KEY'' \<mapsto> ''sk-1'', ''GOOGLE_API_KEY'' \<mapsto> ''g-1'',
                 ''Google_API_KEY'' \<mapsto> ''g-2''],
      dotenv_file = Map.empty\<rparr>"

definition proc_dotenv_only :: process where
  "proc_dotenv_only =
     \<lparr>environ = Map.empty,
      dotenv_file = [''OPENAI_API_KEY'' \<mapsto> ''sk-1'', ''GOOGLE_API_KEY'' \<mapsto> ''g-1'',
                     ''Google_API_KEY'' \<mapsto> ''g-2'']\<rparr>"



text \<open>A concrete conversation: a session is started on the initial state, the message
  \<^verbatim>\<open>hi\<close> is answered, the message \<^verbatim>\<open>bad\<close> makes the runner fail, and a further
  \<^verbatim>\<open>hi\<close> is answered.\<close>

definition demo_g :: chatbot_globals where
  "demo_g = chatbot_py proc_keys"

definition demo_s1 :: chat_state where
  "demo_s1 = snd (on_messages stub_runner demo_g 0 [Message ''hi''] (start_chat 0 chat_init))"

definition demo_s2 :: chat_state where
  "demo_s2 = snd (handle_msg stub_runner demo_g 0 (Message ''bad'') demo_s1)"

definition demo_s3 :: chat_state where
  "demo_s3 = snd (handle_msg stub_runner demo_g 0 (Message ''hi'') demo_s2)"

section \<open>Lemmas on the command-line loop\<close>

lemma of_char_lower_char:
  "(of_char (lower_char c) :: nat) =
     (let n = of_char c in
      if (65 \<le> n \<and> n \<le> 90) \<or> (192 \<le> n \<and> n \<le> 222 \<and> n \<noteq> 215) then n + 32 else n)"
  unfolding lower_char_def Let_def
  by (simp split: if_splits)

lemma lower_char_letter:
  assumes "of_char l = (k::nat)" "97 \<le> k" "k \<le> 122" "of_char u = k - 32"
  shows "lower_char c = l \<longleftrightarrow> c = l \<or> c = u"
proof -
  have "lower_char c = l \<longleftrightarrow> (of_char (lower_char c) :: nat) = of_char l"
    by simp
  also have "\<dots> \<longleftrightarrow> (of_char c :: nat) = k \<or> (of_char c :: nat) = k - 32"
    unfolding of_char_lower_char Let_def assms(1)
    using assms(2,3) by (simp split: if_splits) arith
  also have "(of_char c :: nat) = k \<longleftrightarrow> c = l"
    unfolding assms(1)[symmetric] by simp
  also have "(of_char c :: nat) = k - 32 \<longleftrightarrow> c = u"
    unfolding assms(4)[symmetric] by simp
  finally show ?thesis .
qed

lemma lower_char_e: "lower_char c = CHR ''e'' \<longleftrightarrow> c = CHR ''e'' \<or> c = CHR ''E''"
  by (rule lower_char_letter[where k = 101]) simp_all

lemma lower_char_x: "lower_char c = CHR ''x'' \<longleftrightarrow> c = CHR ''x'' \<or> c = CHR ''X''"
  by (rule lower_char_letter[where k = 120]) simp_all

lemma lower_char_i: "lower_char c = CHR ''i'' \<longleftrightarrow> c = CHR ''i'' \<or> c = CHR ''I''"
  by (rule lower_char_letter[where k = 105]) simp_all

lemma lower_char_t: "lower_char c = CHR ''t'' \<longleftrightarrow> c = CHR ''t'' \<or> c = CHR ''T''"
  by (rule lower_char_letter[where k = 116]) simp_all

lemma lower_exit_iff:
  "lower q = ''exit'' \<longleftrightarrow>
     (\<exists>a b c d. q = [a, b, c, d] \<and> a \<in> {CHR ''e'', CHR ''E''} \<and> b \<in> {CHR ''x'', CHR ''X''}
        \<and> c \<in> {CHR ''i'', CHR ''I''} \<and> d \<in> {CHR ''t'', CHR ''T''})"
  (is "?L \<longleftrightarrow> ?R")
proof
  assume ?L
  then have "map lower_char q = [CHR ''e'', CHR ''x'', CHR ''i'', CHR ''t'']"
    by (simp add: lower_def)
  then obtain a b c d where q: "q = [a, b, c, d]"
    and l: "lower_char a = CHR ''e''" "lower_char b = CHR ''x''"
           "lower_char c = CHR ''i''" "lower_char d = CHR ''t''"
    unfolding map_eq_Cons_conv by auto
  from l have "a \<in> {CHR ''e'', CHR ''E''}" "b \<in> {CHR ''x'', CHR ''X''}"
    "c \<in> {CHR ''i'', CHR ''I''}" "d \<in> {CHR ''t'', CHR ''T''}"
    unfolding lower_char_e lower_char_x lower_char_i lower_char_t by simp_all
  with q show ?R by blast
next
  assume ?R
  then obtain a b c d where q: "q = [a, b, c, d]"
    and m: "a \<in> {CHR ''e'', CHR ''E''}" "b \<in> {CHR ''x'', CHR ''X''}"
           "c \<in> {CHR ''i'', CHR ''I''}" "d \<in> {CHR ''t'', CHR ''T''}"
    by blast
  from m have "lower_char a = CHR ''e''" "lower_char b = CHR ''x''"
    "lower_char c = CHR ''i''" "lower_char d = CHR ''t''"
    unfolding lower_char_e lower_char_x lower_char_i lower_char_t by simp_all
  with q show ?L by (simp add: lower_def)
qed

lemma lower_space_not_exit:
  assumes "q \<noteq> []" "isspace (hd q) \<or> isspace (last q)"
  shows "lower q \<noteq> ''exit''"
proof
  assume "lower q = ''exit''"
  then obtain a b c d where q: "q = [a, b, c, d]"
    and a: "a \<in> {CHR ''e'', CHR ''E''}" and d: "d \<in> {CHR ''t'', CHR ''T''}"
    unfolding lower_exit_iff by blast
  from a d have "\<not> isspace a" "\<not> isspace d"
    by (auto simp: isspace_def)
  with assms(2) q show False by simp
qed

lemma cli_loop_exit:
  "lower query = ''exit'' \<Longrightarrow> cli_loop run (query # rest) st = (Inr (), write_stdout prompt st)"
  by (simp add: Let_def)

lemma cli_loop_fail:
  assumes "lower query \<noteq> ''exit''" "run news_agent (Text query) None = Inl e"
  shows "cli_loop run (query # rest) st =
           (Inl e, st\<lparr>invocations := invocations st @ [news_call query],
                      stdout := stdout st @ prompt\<rparr>)"
  using assms by (simp add: Let_def run_sync_def write_stdout_def news_call_def)

lemma cli_loop_ok:
  assumes "lower query \<noteq> ''exit''" "run news_agent (Text query) None = Inr result"
  shows "cli_loop run (query # rest) st =
           cli_loop run rest
             (st\<lparr>invocations := invocations st @ [news_call query],
                 stdout := stdout st @ prompt @ newline @ ''Result:'' @ newline
                              @ final_output result @ newline
                              @ newline @ replicate 50 CHR ''='' @ newline @ newline\<rparr>)"
  using assms
  by (simp add: Let_def run_sync_def write_stdout_def print_def news_call_def)

declare cli_loop.simps(2) [simp del]

lemma cli_loop_grows:
  "\<exists>out calls.
      stdout (snd (cli_loop run ls st)) = stdout st @ out
    \<and> invocations (snd (cli_loop run ls st)) = invocations st @ calls
    \<and> (\<forall>c\<in>set calls. inv_agent c = news_agent \<and> inv_config c = None)"
proof (induction ls arbitrary: st)
  case Nil
  have "stdout (snd (cli_loop run [] st)) = stdout st @ prompt"
    "invocations (snd (cli_loop run [] st)) = invocations st @ []"
    by (simp_all add: write_stdout_def)
  then show ?case by fastforce
next
  case (Cons query rest)
  show ?case
  proof (cases "lower query = ''exit''")
    case True
    have "stdout (snd (cli_loop run (query # rest) st)) = stdout st @ prompt"
      "invocations (snd (cli_loop run (query # rest) st)) = invocations st @ []"
      unfolding cli_loop_exit[OF True] by (simp_all add: write_stdout_def)
    then show ?thesis by fastforce
  next
    case False
    show ?thesis
    proof (cases "run news_agent (Text query) None")
      case (Inl e)
      have "stdout (snd (cli_loop run (query # rest) st)) = stdout st @ prompt"
        "invocations (snd (cli_loop run (query # rest) st)) = invocations st @ [news_call query]"
        unfolding cli_loop_fail[where run = run, OF False Inl] by simp_all
      moreover have "\<forall>c\<in>set [news_call query]. inv_agent c = news_agent \<and> inv_config c = None"
        by (simp add: news_call_def)
      ultimately show ?thesis by blast
    next
      case (Inr result)
      let ?blk = "prompt @ newline @ ''Result:'' @ newline @ final_output result @ newline
                    @ newline @ replicate 50 CHR ''='' @ newline @ newline"
      let ?st = "st\<lparr>invocations := invocations st @ [news_call query],
                      stdout := stdout st @ ?blk\<rparr>"
      from Cons.IH[of ?st] obtain out calls where
        o: "stdout (snd (cli_loop run rest ?st)) = stdout ?st @ out"
        and i: "invocations (snd (cli_loop run rest ?st)) = invocations ?st @ calls"
        and cs: "\<forall>c\<in>set calls. inv_agent c = news_agent \<and> inv_config c = None"
        by blast
      have "stdout (snd (cli_loop run (query # rest) st)) = stdout st @ (?blk @ out)"
        unfolding cli_loop_ok[where run = run, OF False Inr] o by simp
      moreover have "invocations (snd (cli_loop run (query # rest) st))
                       = invocations st @ (news_call query # calls)"
        unfolding cli_loop_ok[where run = run, OF False Inr] i by simp
      moreover have "\<forall>c\<in>set (news_call query # calls). inv_agent c = news_agent \<and> inv_config c = None"
        using cs by (simp add: news_call_def)
      ultimately show ?thesis by blast
    qed
  qed
qed


lemma news_agent_py_loop:
  "\<not> py_not (getenv (load_dotenv p) ''OPENAI_API_KEY'') \<Longrightarrow>
     news_agent_py run p ls = cli_loop run ls cli_init"
  by (simp add: news_agent_py_def Let_def cli_init_def)

lemma lower_bad: "lower ''bad'' \<noteq> ''exit''"
  by (simp add: lower_def)

lemma lower_cats: "lower ''cats'' \<noteq> ''exit''"
  by (simp add: lower_exit_iff)

lemma lower_plain_exit: "lower ''exit'' = ''exit''"
  by (simp add: lower_exit_iff)

lemma proc_keys_openai: "\<not> py_not (getenv (load_dotenv proc_keys) ''OPENAI_API_KEY'')"
  by (simp add: getenv_def load_dotenv_def proc_keys_def)

section \<open>The command-line loop: termination on the sentinel\<close>

text \<open>
  C6. An input line whose lower-case form is \<^verbatim>\<open>exit\<close> ends the loop by
  \<^verbatim>\<open>break\<close>: the script ends normally (exit code 0), only the prompt has been
  written, and no call of the runner is made for that line. With the input lines
  \<^verbatim>\<open>cats\<close>, \<^verbatim>\<open>exit\<close> and a runner that answers the first, the script makes
  exactly one call, for \<^verbatim>\<open>cats\<close>, and ends with exit code 0.
\<close>

theorem exit_sentinel_ends_loop:
  "(lower query = ''exit'' \<longrightarrow>
      cli_loop run (query # rest) st = (Inr (), write_stdout prompt st)
      \<and> exit_code (fst (cli_loop run (query # rest) st)) = 0
      \<and> invocations (snd (cli_loop run (query # rest) st)) = invocations st)
   \<and> (\<not> py_not (getenv (load_dotenv p) ''OPENAI_API_KEY'')
        \<and> run news_agent (Text ''cats'') None = Inr result \<longrightarrow>
      exit_code (fst (news_agent_py run p [''cats'', ''exit''])) = 0
      \<and> invocations (snd (news_agent_py run p [''cats'', ''exit''])) = [news_call ''cats''])"
proof (intro conjI impI)
  assume e: "lower query = ''exit''"
  show "cli_loop run (query # rest) st = (Inr (), write_stdout prompt st)"
    by (rule cli_loop_exit[OF e])
  then show "exit_code (fst (cli_loop run (query # rest) st)) = 0"
    and "invocations (snd (cli_loop run (query # rest) st)) = invocations st"
    by (simp_all add: write_stdout_def)
next
  assume a: "\<not> py_not (getenv (load_dotenv p) ''OPENAI_API_KEY'')
               \<and> run news_agent (Text ''cats'') None = Inr result"
  then have ok: "run news_agent (Text ''cats'') None = Inr result" by simp
  have "news_agent_py run p [''cats'', ''exit''] = cli_loop run [''cats'', ''exit''] cli_init"
    using a by (simp add: news_agent_py_loop)
  also have "\<dots> = cli_loop run [''exit'']
      (cli_init\<lparr>invocations := invocations cli_init @ [news_call ''cats''],
                stdout := stdout cli_init @ prompt @ newline @ ''Result:'' @ newline
                            @ final_output result @ newline
                            @ newline @ replicate 50 CHR ''='' @ newline @ newline\<rparr>)"
    by (rule cli_loop_ok[where run = run, OF lower_cats ok])
  finally have eq: "news_agent_py run p [''cats'', ''exit''] =
      (Inr (), write_stdout prompt
         (cli_init\<lparr>invocations := invocations cli_init @ [news_call ''cats''],
                stdout := stdout cli_init @ prompt @ newline @ ''Result:'' @ newline
                            @ final_output result @ newline
                            @ newline @ replicate 50 CHR ''='' @ newline @ newline\<rparr>))"
    unfolding cli_loop_exit[OF lower_plain_exit] .
  show "exit_code (fst (news_agent_py run p [''cats'', ''exit''])) = 0"
    unfolding eq by simp
  show "invocations (snd (news_agent_py run p [''cats'', ''exit''])) = [news_call ''cats'']"
    unfolding eq by (simp add: write_stdout_def cli_init_def)
qed

theorem exit_sentinel_ends_loop_witness:
  "lower ''EXIT'' = ''exit''
   \<and> cli_loop stub_runner [''EXIT'', ''cats''] cli_init = (Inr (), write_stdout prompt cli_init)
   \<and> invocations (snd (cli_loop stub_runner [''EXIT'', ''cats''] cli_init)) = []
   \<and> \<not> py_not (getenv (load_dotenv proc_keys) ''OPENAI_API_KEY'')
   \<and> stub_runner news_agent (Text ''cats'') None = Inr \<lparr>final_output = ''ok''\<rparr>
   \<and> exit_code (fst (news_agent_py stub_runner proc_keys [''cats'', ''exit''])) = 0
   \<and> invocations (snd (news_agent_py stub_runner proc_keys [''cats'', ''exit'']))
        = [news_call ''cats'']"
proof -
  have l: "lower ''EXIT'' = ''exit''" by (simp add: lower_exit_iff)
  have s: "stub_runner news_agent (Text ''cats'') None = Inr \<lparr>final_output = ''ok''\<rparr>" by simp
  show ?thesis
    using l s proc_keys_openai
      exit_sentinel_ends_loop[of "''EXIT''" stub_runner "[''cats'']" cli_init proc_keys
        "\<lparr>final_output = ''ok''\<rparr>"]
    by (simp add: cli_init_def write_stdout_def)
qed


section \<open>The command-line loop: the result block\<close>

text \<open>
  C8. For a line that is not the sentinel and on which the runner returns a result,
  the iteration writes the prompt and then three \<^verbatim>\<open>print\<close> outputs: an empty line
  and the line \<^verbatim>\<open>Result:\<close>; the final output text; an empty line, a line of
  exactly fifty \<^verbatim>\<open>=\<close> characters and another empty line. The loop then goes on
  with the next line, so this text stays on standard output whatever follows.
\<close>

theorem result_block_printed:
  "lower query \<noteq> ''exit'' \<and> run news_agent (Text query) None = Inr result \<longrightarrow>
     cli_loop run (query # rest) st =
       cli_loop run rest
         (st\<lparr>invocations := invocations st @ [news_call query],
             stdout := stdout st @ prompt @ newline @ ''Result:'' @ newline
                        @ final_output result @ newline
                        @ newline @ replicate 50 CHR ''='' @ newline @ newline\<rparr>)
     \<and> (\<exists>later. stdout (snd (cli_loop run (query # rest) st)) =
           stdout st @ prompt @ newline @ ''Result:'' @ newline
             @ final_output result @ newline
             @ newline @ replicate 50 CHR ''='' @ newline @ newline @ later)
     \<and> length (replicate 50 CHR ''='') = 50
     \<and> set (replicate 50 CHR ''='') = {CHR ''=''}"
proof (intro impI conjI)
  assume a: "lower query \<noteq> ''exit'' \<and> run news_agent (Text query) None = Inr result"
  let ?st = "st\<lparr>invocations := invocations st @ [news_call query],
             stdout := stdout st @ prompt @ newline @ ''Result:'' @ newline
                        @ final_output result @ newline
                        @ newline @ replicate 50 CHR ''='' @ newline @ newline\<rparr>"
  from a show eq: "cli_loop run (query # rest) st = cli_loop run rest ?st"
    by (simp add: cli_loop_ok[where run = run])
  from cli_loop_grows[of run rest ?st] obtain later where
    "stdout (snd (cli_loop run rest ?st)) = stdout ?st @ later"
    by blast
  then have "stdout (snd (cli_loop run (query # rest) st)) =
           stdout st @ prompt @ newline @ ''Result:'' @ newline
             @ final_output result @ newline
             @ newline @ replicate 50 CHR ''='' @ newline @ newline @ later"
    unfolding eq by simp
  then show "\<exists>later. stdout (snd (cli_loop run (query # rest) st)) =
           stdout st @ prompt @ newline @ ''Result:'' @ newline
             @ final_output result @ newline
             @ newline @ replicate 50 CHR ''='' @ newline @ newline @ later"
    by (rule exI)
qed simp_all

theorem result_block_printed_witness:
  "lower ''cats'' \<noteq> ''exit''
   \<and> stub_runner news_agent (Text ''cats'') None = Inr \<lparr>final_output = ''ok''\<rparr>
   \<and> stdout (snd (cli_loop stub_runner [''cats'', ''exit''] cli_init)) =
        prompt @ newline @ ''Result:'' @ newline @ ''ok'' @ newline
          @ newline @ replicate 50 CHR ''='' @ newline @ newline @ prompt"
proof -
  have s: "stub_runner news_agent (Text ''cats'') None = Inr \<lparr>final_output = ''ok''\<rparr>"
    by simp
  have "cli_loop stub_runner [''cats'', ''exit''] cli_init =
       cli_loop stub_runner [''exit'']
         (cli_init\<lparr>invocations := invocations cli_init @ [news_call ''cats''],
             stdout := stdout cli_init @ prompt @ newline @ ''Result:'' @ newline
                        @ final_output \<lparr>final_output = ''ok''\<rparr> @ newline
                        @ newline @ replicate 50 CHR ''='' @ newline @ newline\<rparr>)"
    using result_block_printed[of "''cats''" stub_runner "\<lparr>final_output = ''ok''\<rparr>"
            "[''exit'']" cli_init] lower_cats s
    by blast
  then show ?thesis
    using lower_cats s
    by (simp add: cli_loop_exit[OF lower_plain_exit] write_stdout_def cli_init_def)
qed

section \<open>The command-line loop: the sentinel is compared without trimming\<close>

text \<open>
  C9. The comparison is \<^verbatim>\<open>query.lower() == 'exit'\<close> on the line as read. It holds
  exactly for the four-letter lines that spell \<^verbatim>\<open>exit\<close> in any mix of upper and
  lower case, and then the loop ends. A line that begins or ends with a white-space
  character (such as \<^verbatim>\<open>" exit "\<close> or \<^verbatim>\<open>"exit "\<close>) is not the sentinel: the loop
  calls the runner with that very string as the query.
\<close>

theorem sentinel_not_trimmed:
  "(lower q = ''exit'' \<longleftrightarrow>
      (\<exists>a b c d. q = [a, b, c, d] \<and> a \<in> {CHR ''e'', CHR ''E''} \<and> b \<in> {CHR ''x'', CHR ''X''}
          \<and> c \<in> {CHR ''i'', CHR ''I''} \<and> d \<in> {CHR ''t'', CHR ''T''}))
   \<and> (lower q = ''exit'' \<longrightarrow> cli_loop run (q # rest) st = (Inr (), write_stdout prompt st))
   \<and> (q \<noteq> [] \<and> (isspace (hd q) \<or> isspace (last q)) \<longrightarrow>
        lower q \<noteq> ''exit''
        \<and> (\<exists>later. invocations (snd (cli_loop run (q # rest) st))
                      = invocations st @ news_call q # later)
        \<and> inv_input (news_call q) = Text q)"
proof (intro conjI impI)
  show "lower q = ''exit'' \<longleftrightarrow>
      (\<exists>a b c d. q = [a, b, c, d] \<and> a \<in> {CHR ''e'', CHR ''E''} \<and> b \<in> {CHR ''x'', CHR ''X''}
          \<and> c \<in> {CHR ''i'', CHR ''I''} \<and> d \<in> {CHR ''t'', CHR ''T''})"
    by (rule lower_exit_iff)
next
  assume "lower q = ''exit''"
  then show "cli_loop run (q # rest) st = (Inr (), write_stdout prompt st)"
    by (rule cli_loop_exit)
next
  assume a: "q \<noteq> [] \<and> (isspace (hd q) \<or> isspace (last q))"
  then show ne: "lower q \<noteq> ''exit''"
    using lower_space_not_exit by blast
  show "\<exists>later. invocations (snd (cli_loop run (q # rest) st))
                      = invocations st @ news_call q # later"
  proof (cases "run news_agent (Text q) None")
    case (Inl e)
    show ?thesis
      unfolding cli_loop_fail[where run = run, OF ne Inl] by simp
  next
    case (Inr result)
    let ?st = "st\<lparr>invocations := invocations st @ [news_call q],
             stdout := stdout st @ prompt @ newline @ ''Result:'' @ newline
                        @ final_output result @ newline
                        @ newline @ replicate 50 CHR ''='' @ newline @ newline\<rparr>"
    from cli_loop_grows[of run rest ?st] obtain calls where
      "invocations (snd (cli_loop run rest ?st)) = invocations ?st @ calls"
      by blast
    then show ?thesis
      unfolding cli_loop_ok[where run = run, OF ne Inr] by simp
  qed
  show "inv_input (news_call q) = Text q"
    by (simp add: news_call_def)
qed

theorem sentinel_not_trimmed_witness:
  "lower ''Exit'' = ''exit''
   \<and> cli_loop stub_runner [''Exit'', ''cats''] cli_init = (Inr (), write_stdout prompt cli_init)
   \<and> isspace (hd '' exit '') \<and> isspace (last ''exit '')
   \<and> lower '' exit '' \<noteq> ''exit'' \<and> lower ''exit '' \<noteq> ''exit''
   \<and> (\<exists>later. invocations (snd (cli_loop stub_runner ['' exit '', ''exit''] cli_init))
                  = news_call '' exit '' # later)
   \<and> (\<exists>later. invocations (snd (cli_loop stub_runner [''exit '', ''exit''] cli_init))
                  = news_call ''exit '' # later)"
proof -
  have l: "lower ''Exit'' = ''exit''" by (simp add: lower_exit_iff)
  have s: "isspace (hd '' exit '')" "isspace (last ''exit '')"
    by (simp_all add: isspace_def)
  show ?thesis
    using l s
      sentinel_not_trimmed[of "''Exit''" stub_runner "[''cats'']" cli_init]
      sentinel_not_trimmed[of "'' exit ''" stub_runner "[''exit'']" cli_init]
      sentinel_not_trimmed[of "''exit ''" stub_runner "[''exit'']" cli_init]
    by (simp add: cli_init_def)
qed

section \<open>The command-line loop: a failing call\<close>

text \<open>
  C3, as the code has it. The loop has no \<^verbatim>\<open>try\<close>: when the runner raises on a
  line, the exception leaves the loop and ends the process (exit code 1). Only the
  prompt has been written, the call is the last one made, and no later line is read.
  With the lines \<^verbatim>\<open>bad\<close>, \<^verbatim>\<open>good\<close>, \<^verbatim>\<open>exit\<close> and a runner failing on
  \<^verbatim>\<open>bad\<close>, there is exactly one call and no result block.
\<close>

theorem failing_call_ends_loop:
  "(lower query \<noteq> ''exit'' \<and> run news_agent (Text query) None = Inl e \<longrightarrow>
      cli_loop run (query # rest) st =
        (Inl e, st\<lparr>invocations := invocations st @ [news_call query],
                   stdout := stdout st @ prompt\<rparr>)
      \<and> exit_code (fst (cli_loop run (query # rest) st)) = 1)
   \<and> (run news_agent (Text ''bad'') None = Inl e \<longrightarrow>
      cli_loop run [''bad'', ''good'', ''exit''] cli_init =
        (Inl e, \<lparr>stdout = prompt, invocations = [news_call ''bad'']\<rparr>))"
proof (intro conjI impI)
  assume a: "lower query \<noteq> ''exit'' \<and> run news_agent (Text query) None = Inl e"
  then show eq: "cli_loop run (query # rest) st =
        (Inl e, st\<lparr>invocations := invocations st @ [news_call query],
                   stdout := stdout st @ prompt\<rparr>)"
    by (simp add: cli_loop_fail[where run = run])
  show "exit_code (fst (cli_loop run (query # rest) st)) = 1"
    unfolding eq by simp
next
  assume "run news_agent (Text ''bad'') None = Inl e"
  then show "cli_loop run [''bad'', ''good'', ''exit''] cli_init =
        (Inl e, \<lparr>stdout = prompt, invocations = [news_call ''bad'']\<rparr>)"
    by (simp add: cli_loop_fail[where run = run, OF lower_bad] cli_init_def)
qed

theorem failing_call_ends_loop_witness:
  "lower ''bad'' \<noteq> ''exit''
   \<and> stub_runner news_agent (Text ''bad'') None = Inl (RemoteInvocationFailed ''bad'')
   \<and> cli_loop stub_runner [''bad'', ''good'', ''exit''] cli_init =
        (Inl (RemoteInvocationFailed ''bad''),
         \<lparr>stdout = prompt, invocations = [news_call ''bad'']\<rparr>)
   \<and> exit_code (fst (cli_loop stub_runner [''bad'', ''good'', ''exit''] cli_init)) = 1"
proof -
  have s: "stub_runner news_agent (Text ''bad'') None = Inl (RemoteInvocationFailed ''bad'')"
    by simp
  show ?thesis
    using s lower_bad
      failing_call_ends_loop[of "''bad''" stub_runner "RemoteInvocationFailed ''bad''"
        "[''good'', ''exit'']" cli_init]
    by (simp add: cli_init_def)
qed

text \<open>
  The claim as the specification states it (two calls, one reported error, one result
  block, then a clean exit) fails on the stub input: the runner fails only on
  \<^verbatim>\<open>bad\<close>, yet the loop ends with the error after one call, and standard output
  holds the prompt alone.
\<close>

theorem cli_resilience_counterexample:
  "stub_runner news_agent (Text ''good'') None = Inr \<lparr>final_output = ''ok''\<rparr>
   \<and> fst (cli_loop stub_runner [''bad'', ''good'', ''exit''] cli_init)
       = Inl (RemoteInvocationFailed ''bad'')
   \<and> length (invocations (snd (cli_loop stub_runner [''bad'', ''good'', ''exit''] cli_init))) = 1
   \<and> stdout (snd (cli_loop stub_runner [''bad'', ''good'', ''exit''] cli_init)) = prompt
   \<and> \<not> (fst (cli_loop stub_runner [''bad'', ''good'', ''exit''] cli_init) = Inr ()
         \<and> length (invocations (snd (cli_loop stub_runner [''bad'', ''good'', ''exit''] cli_init))) = 2)"
proof -
  have s: "stub_runner news_agent (Text ''bad'') None = Inl (RemoteInvocationFailed ''bad'')"
    by simp
  show ?thesis
    unfolding cli_loop_fail[where run = stub_runner, OF lower_bad s]
    by (simp add: cli_init_def)
qed


section \<open>Lemmas on the chat handlers\<close>

lemma start_chat_started: "started (start_chat sid s) sid (next_addr s)"
  by (simp add: start_chat_def new_list_def user_session_set_def send_def started_def)

lemma start_chat_heap: "heap (start_chat sid s) (next_addr s) = []"
  by (simp add: start_chat_def new_list_def user_session_set_def send_def)

lemma start_chat_invocations: "chat_invocations (start_chat sid s) = chat_invocations s"
  by (simp add: start_chat_def new_list_def user_session_set_def send_def)

lemma start_chat_channel:
  "channel (start_chat sid s) =
     channel s @ [(sid, ''Hello! I am your assistant. How can I help you today?'')]"
  by (simp add: start_chat_def new_list_def user_session_set_def send_def)

lemma history_of_started: "started s sid a \<Longrightarrow> history_of s sid = heap s a"
  by (simp add: started_def history_of_def)

text \<open>One turn on a started session, when the runner raises.\<close>

lemma handle_msg_fail:
  assumes st: "started s sid a"
    and run: "run (g_agent g) (History (heap s a @ [user_entry m])) (Some (g_config g)) = Inl e"
  shows "fst (handle_msg run g sid m s) = Inl e"
    and "started (snd (handle_msg run g sid m s)) sid a"
    and "heap (snd (handle_msg run g sid m s)) a = heap s a @ [user_entry m]"
    and "channel (snd (handle_msg run g sid m s)) = channel s"
    and "chat_invocations (snd (handle_msg run g sid m s)) =
           chat_invocations s @ [chat_call g (heap s a @ [user_entry m])]"
  using st run
  by (simp_all add: handle_msg_def new_list_def user_session_get_def list_append_def
        run_async_def started_def user_entry_def chat_call_def Let_def)

text \<open>One turn on a started session, when the runner returns.\<close>

lemma handle_msg_ok:
  assumes st: "started s sid a"
    and run: "run (g_agent g) (History (heap s a @ [user_entry m])) (Some (g_config g)) = Inr r"
  shows "fst (handle_msg run g sid m s) = Inr ()"
    and "started (snd (handle_msg run g sid m s)) sid a"
    and "heap (snd (handle_msg run g sid m s)) a
           = heap s a @ [user_entry m, assistant_entry r]"
    and "channel (snd (handle_msg run g sid m s)) = channel s @ [(sid, final_output r)]"
    and "chat_invocations (snd (handle_msg run g sid m s)) =
           chat_invocations s @ [chat_call g (heap s a @ [user_entry m])]"
  using st run
  by (simp_all add: handle_msg_def new_list_def user_session_get_def list_append_def
        run_async_def started_def user_entry_def assistant_entry_def chat_call_def
        user_session_set_def send_def Let_def)

text \<open>Every turn, on any state, makes exactly one call: the agent, a history that
  ends with the new user message, and the run configuration.\<close>

lemma handle_msg_invocation:
  "\<exists>h. chat_invocations (snd (handle_msg run g sid m s)) =
         chat_invocations s @ [chat_call g (h @ [user_entry m])]"
proof -
  let ?h = "heap (snd (new_list s)) (user_session_get sid ''history'' (next_addr s) (snd (new_list s)))"
  have "chat_invocations (snd (handle_msg run g sid m s)) =
         chat_invocations s @ [chat_call g (?h @ [user_entry m])]"
    by (simp add: handle_msg_def new_list_def user_session_get_def list_append_def
        run_async_def user_entry_def assistant_entry_def chat_call_def
        user_session_set_def send_def Let_def split: option.splits sum.splits)
  then show ?thesis by (rule exI)
qed

lemma handle_msg_ok_run:
  assumes st: "started s sid a" and ok: "fst (handle_msg run g sid m s) = Inr ()"
  shows "\<exists>r. run (g_agent g) (History (heap s a @ [user_entry m])) (Some (g_config g)) = Inr r"
proof (cases "run (g_agent g) (History (heap s a @ [user_entry m])) (Some (g_config g))")
  case (Inl e)
  from handle_msg_fail(1)[where run = run, OF st Inl] ok show ?thesis by simp
next
  case (Inr r)
  then show ?thesis by blast
qed

lemma on_messages_Cons:
  "on_messages run g sid (m # ms) s =
     (fst (handle_msg run g sid m s)
        # fst (on_messages run g sid ms (snd (handle_msg run g sid m s))),
      snd (on_messages run g sid ms (snd (handle_msg run g sid m s))))"
  by (simp add: Let_def case_prod_beta)

declare on_messages.simps(2) [simp del]

lemma role_user_entry: "role (user_entry m) = ''user''"
  by (simp add: user_entry_def)

lemma role_assistant_entry: "role (assistant_entry r) = ''assistant''"
  by (simp add: assistant_entry_def)

text \<open>A run of turns that all return: the stored list grows by one user and one
  assistant entry per turn.\<close>

lemma on_messages_all_ok:
  assumes "started s sid a"
    and "set (fst (on_messages run g sid msgs s)) \<subseteq> {Inr ()}"
  shows "started (snd (on_messages run g sid msgs s)) sid a
       \<and> (\<exists>new. heap (snd (on_messages run g sid msgs s)) a = heap s a @ new
             \<and> map role new = concat (replicate (length msgs) [''user'', ''assistant'']))"
  using assms
proof (induction msgs arbitrary: s)
  case Nil
  then show ?case by simp
next
  case (Cons m ms)
  let ?s1 = "snd (handle_msg run g sid m s)"
  from Cons.prems(2) have r1: "fst (handle_msg run g sid m s) = Inr ()"
    and rest: "set (fst (on_messages run g sid ms ?s1)) \<subseteq> {Inr ()}"
    by (simp_all add: on_messages_Cons)
  from handle_msg_ok_run[OF Cons.prems(1) r1] obtain r where
    run: "run (g_agent g) (History (heap s a @ [user_entry m])) (Some (g_config g)) = Inr r"
    by blast
  note step = handle_msg_ok[where run = run, OF Cons.prems(1) run]
  from Cons.IH[OF step(2) rest] obtain new where
    st': "started (snd (on_messages run g sid ms ?s1)) sid a"
    and h: "heap (snd (on_messages run g sid ms ?s1)) a = heap ?s1 a @ new"
    and roles: "map role new = concat (replicate (length ms) [''user'', ''assistant''])"
    by blast
  have "heap (snd (on_messages run g sid (m # ms) s)) a
          = heap s a @ ([user_entry m, assistant_entry r] @ new)"
    by (simp add: on_messages_Cons h step(3))
  moreover have "map role ([user_entry m, assistant_entry r] @ new)
          = concat (replicate (length (m # ms)) [''user'', ''assistant''])"
    by (simp add: roles role_user_entry role_assistant_entry)
  moreover have "started (snd (on_messages run g sid (m # ms) s)) sid a"
    using st' by (simp add: on_messages_Cons)
  ultimately show ?case by blast
qed

text \<open>The calls made by a run of turns, whatever their results.\<close>

lemma on_messages_invocations:
  "\<exists>invs. chat_invocations (snd (on_messages run g sid msgs s)) = chat_invocations s @ invs
      \<and> length invs = length msgs
      \<and> (\<forall>i\<in>set invs. inv_agent i = g_agent g \<and> inv_config i = Some (g_config g)
                          \<and> ends_with_user (inv_input i))"
proof (induction msgs arbitrary: s)
  case Nil
  have "chat_invocations (snd (on_messages run g sid [] s)) = chat_invocations s @ []"
    by simp
  then show ?case by fastforce
next
  case (Cons m ms)
  let ?s1 = "snd (handle_msg run g sid m s)"
  from handle_msg_invocation[of run g sid m s] obtain h where
    one: "chat_invocations ?s1 = chat_invocations s @ [chat_call g (h @ [user_entry m])]"
    by blast
  from Cons.IH[of ?s1] obtain invs where
    more: "chat_invocations (snd (on_messages run g sid ms ?s1)) = chat_invocations ?s1 @ invs"
    and len: "length invs = length ms"
    and all: "\<forall>i\<in>set invs. inv_agent i = g_agent g \<and> inv_config i = Some (g_config g)
                          \<and> ends_with_user (inv_input i)"
    by blast
  have "chat_invocations (snd (on_messages run g sid (m # ms) s))
          = chat_invocations s @ (chat_call g (h @ [user_entry m]) # invs)"
    by (simp add: on_messages_Cons more one)
  moreover have "length (chat_call g (h @ [user_entry m]) # invs) = length (m # ms)"
    using len by simp
  moreover have "\<forall>i\<in>set (chat_call g (h @ [user_entry m]) # invs).
      inv_agent i = g_agent g \<and> inv_config i = Some (g_config g) \<and> ends_with_user (inv_input i)"
    using all by (simp add: chat_call_def role_user_entry)
  ultimately show ?case by blast
qed


section \<open>The chat surface: histories of successful turns\<close>

text \<open>
  C2. A session is started and \<open>N\<close> user messages are handled, every call of the
  runner returning (the handler's result is \<open>Inr ()\<close> exactly then). The session's
  history then has \<open>2N\<close> entries whose roles are \<^verbatim>\<open>user\<close>, \<^verbatim>\<open>assistant\<close>,
  \<^verbatim>\<open>user\<close>, \<^verbatim>\<open>assistant\<close>, and so on; \<open>N\<close> calls were made, and the history
  passed to each of them ends with a user message.
\<close>

theorem history_alternates:
  "set (fst (on_messages run g sid msgs (start_chat sid s))) \<subseteq> {Inr ()} \<longrightarrow>
     length (history_of (snd (on_messages run g sid msgs (start_chat sid s))) sid)
       = 2 * length msgs
     \<and> map role (history_of (snd (on_messages run g sid msgs (start_chat sid s))) sid)
       = concat (replicate (length msgs) [''user'', ''assistant''])
     \<and> length (drop (length (chat_invocations s))
          (chat_invocations (snd (on_messages run g sid msgs (start_chat sid s)))))
       = length msgs
     \<and> (\<forall>i \<in> set (drop (length (chat_invocations s))
                  (chat_invocations (snd (on_messages run g sid msgs (start_chat sid s))))).
          ends_with_user (inv_input i))"
proof
  let ?s0 = "start_chat sid s"
  let ?s' = "snd (on_messages run g sid msgs ?s0)"
  assume ok: "set (fst (on_messages run g sid msgs ?s0)) \<subseteq> {Inr ()}"
  from on_messages_all_ok[OF start_chat_started ok] obtain new where
    st: "started ?s' sid (next_addr s)"
    and h: "heap ?s' (next_addr s) = heap ?s0 (next_addr s) @ new"
    and roles: "map role new = concat (replicate (length msgs) [''user'', ''assistant''])"
    by blast
  have hist: "history_of ?s' sid = new"
    by (simp add: history_of_started[OF st] h start_chat_heap)
  have "length (map role new) = 2 * length msgs"
    unfolding roles by (simp add: length_concat sum_list_replicate)
  then have len: "length (history_of ?s' sid) = 2 * length msgs"
    by (simp add: hist)
  from on_messages_invocations[of run g sid msgs ?s0] obtain invs where
    i: "chat_invocations ?s' = chat_invocations s @ invs"
    and il: "length invs = length msgs"
    and ia: "\<forall>i\<in>set invs. ends_with_user (inv_input i)"
    unfolding start_chat_invocations by blast
  have d: "drop (length (chat_invocations s)) (chat_invocations ?s') = invs"
    by (simp add: i)
  show "length (history_of ?s' sid) = 2 * length msgs
     \<and> map role (history_of ?s' sid) = concat (replicate (length msgs) [''user'', ''assistant''])
     \<and> length (drop (length (chat_invocations s)) (chat_invocations ?s')) = length msgs
     \<and> (\<forall>i \<in> set (drop (length (chat_invocations s)) (chat_invocations ?s')).
          ends_with_user (inv_input i))"
    unfolding d using len roles il ia by (simp add: hist)
qed

theorem history_alternates_witness:
  "fst (on_messages stub_runner (chatbot_py proc_keys) 0 [Message ''hi'', Message ''hi'']
          (start_chat 0 chat_init)) = [Inr (), Inr ()]
   \<and> map role (history_of (snd (on_messages stub_runner (chatbot_py proc_keys) 0
          [Message ''hi'', Message ''hi''] (start_chat 0 chat_init))) 0)
       = [''user'', ''assistant'', ''user'', ''assistant'']
   \<and> length (chat_invocations (snd (on_messages stub_runner (chatbot_py proc_keys) 0
          [Message ''hi'', Message ''hi''] (start_chat 0 chat_init)))) = 2"
proof -
  let ?g = "chatbot_py proc_keys"
  let ?s0 = "start_chat 0 chat_init"
  let ?s1 = "snd (handle_msg stub_runner ?g 0 (Message ''hi'') ?s0)"
  have a: "next_addr chat_init = 0" by (simp add: chat_init_def)
  have st0: "started ?s0 0 0" using start_chat_started[of 0 chat_init] by (simp add: a)
  have r0: "stub_runner (g_agent ?g) (History (heap ?s0 0 @ [user_entry (Message ''hi'')]))
              (Some (g_config ?g)) = Inr \<lparr>final_output = ''ok''\<rparr>"
    by (simp add: user_entry_def)
  note t1 = handle_msg_ok[where run = stub_runner, OF st0 r0]
  have r1: "stub_runner (g_agent ?g) (History (heap ?s1 0 @ [user_entry (Message ''hi'')]))
              (Some (g_config ?g)) = Inr \<lparr>final_output = ''ok''\<rparr>"
    by (simp add: user_entry_def)
  note t2 = handle_msg_ok[where run = stub_runner, OF t1(2) r1]
  have res: "fst (on_messages stub_runner ?g 0 [Message ''hi'', Message ''hi''] ?s0)
               = [Inr (), Inr ()]"
    by (simp add: on_messages_Cons t1(1) t2(1))
  have ci: "chat_invocations chat_init = []" by (simp add: chat_init_def)
  show ?thesis
    using res history_alternates[of stub_runner ?g 0 "[Message ''hi'', Message ''hi'']" chat_init]
    by (simp add: ci)
qed


subsection \<open>The concrete conversation\<close>

lemma demo_s0_started: "started (start_chat 0 chat_init) 0 0"
  using start_chat_started[of 0 chat_init] by (simp add: chat_init_def)

lemma demo_s0_heap: "heap (start_chat 0 chat_init) 0 = []"
  using start_chat_heap[of 0 chat_init] by (simp add: chat_init_def)

lemma demo_turn1_run:
  "stub_runner (g_agent demo_g)
     (History (heap (start_chat 0 chat_init) 0 @ [user_entry (Message ''hi'')]))
     (Some (g_config demo_g)) = Inr \<lparr>final_output = ''ok''\<rparr>"
  by (simp add: user_entry_def)

lemma demo_s1_eq: "demo_s1 = snd (handle_msg stub_runner demo_g 0 (Message ''hi'') (start_chat 0 chat_init))"
  by (simp add: demo_s1_def on_messages_Cons)

lemma demo_turn1_results:
  "fst (on_messages stub_runner demo_g 0 [Message ''hi''] (start_chat 0 chat_init)) = [Inr ()]"
  using handle_msg_ok(1)[where run = stub_runner, OF demo_s0_started demo_turn1_run]
  by (simp add: on_messages_Cons)

lemma demo_s1_started: "started demo_s1 0 0"
  unfolding demo_s1_eq
  by (rule handle_msg_ok(2)[where run = stub_runner, OF demo_s0_started demo_turn1_run])

lemma demo_turn2_run:
  "stub_runner (g_agent demo_g) (History (heap demo_s1 0 @ [user_entry (Message ''bad'')]))
     (Some (g_config demo_g)) = Inl (RemoteInvocationFailed ''bad'')"
  by (simp add: user_entry_def)

lemma demo_s2_started: "started demo_s2 0 0"
  unfolding demo_s2_def
  by (rule handle_msg_fail(2)[where run = stub_runner, OF demo_s1_started demo_turn2_run])

lemma demo_turn3_run:
  "stub_runner (g_agent demo_g) (History (heap demo_s2 0 @ [user_entry (Message ''hi'')]))
     (Some (g_config demo_g)) = Inr \<lparr>final_output = ''ok''\<rparr>"
  by (simp add: user_entry_def)

section \<open>The chat surface: a failing call\<close>

text \<open>
  C1, as the code has it. The handler has no \<^verbatim>\<open>try\<close>. After \<open>N - 1\<close> answered
  turns of a started session (\<open>N - 1\<close> is the length of \<open>msgs\<close>), let the call of
  the \<open>N\<close>-th turn raise. Then the handler's result is that exception: it sends
  nothing to the channel. The user message was appended to the stored list before
  the call and stays there, no assistant message is appended, so the history has
  \<open>2(N - 1) + 1\<close> entries. The next turn works on that state: when its call
  returns, its user message and the answer are appended and the answer is sent.
\<close>

theorem failed_turn_propagates:
  assumes "set (fst (on_messages run g sid msgs (start_chat sid s))) \<subseteq> {Inr ()}"
    and "s1 = snd (on_messages run g sid msgs (start_chat sid s))"
    and "run (g_agent g) (History (history_of s1 sid @ [user_entry m])) (Some (g_config g))
           = Inl e"
    and "s2 = snd (handle_msg run g sid m s1)"
    and "run' (g_agent g) (History (history_of s2 sid @ [user_entry m'])) (Some (g_config g))
           = Inr r"
    and "s3 = snd (handle_msg run' g sid m' s2)"
  shows "fst (handle_msg run g sid m s1) = Inl e
       \<and> channel s2 = channel s1
       \<and> history_of s2 sid = history_of s1 sid @ [user_entry m]
       \<and> length (history_of s2 sid) = 2 * length msgs + 1
       \<and> fst (handle_msg run' g sid m' s2) = Inr ()
       \<and> history_of s3 sid = history_of s2 sid @ [user_entry m', assistant_entry r]
       \<and> channel s3 = channel s2 @ [(sid, final_output r)]"
proof -
  let ?a = "next_addr s"
  from on_messages_all_ok[OF start_chat_started assms(1)] obtain new where
    st1: "started s1 sid ?a"
    and h1: "heap s1 ?a = heap (start_chat sid s) ?a @ new"
    and roles: "map role new = concat (replicate (length msgs) [''user'', ''assistant''])"
    unfolding assms(2) by blast
  have "length (map role new) = 2 * length msgs"
    unfolding roles by (simp add: length_concat sum_list_replicate)
  then have len1: "length (heap s1 ?a) = 2 * length msgs"
    by (simp add: h1 start_chat_heap)
  have hist1: "history_of s1 sid = heap s1 ?a"
    by (rule history_of_started[OF st1])
  have fail: "run (g_agent g) (History (heap s1 ?a @ [user_entry m])) (Some (g_config g)) = Inl e"
    using assms(3) by (simp add: hist1)
  note t2 = handle_msg_fail[where run = run, OF st1 fail, folded assms(4)]
  have hist2: "history_of s2 sid = heap s2 ?a"
    by (rule history_of_started[OF t2(2)])
  have ok: "run' (g_agent g) (History (heap s2 ?a @ [user_entry m'])) (Some (g_config g)) = Inr r"
    using assms(5) by (simp add: hist2)
  note t3 = handle_msg_ok[where run = run', OF t2(2) ok, folded assms(6)]
  have hist3: "history_of s3 sid = heap s3 ?a"
    by (rule history_of_started[OF t3(2)])
  show ?thesis
    using t2(1,3,4) t3(1,3,4) len1 by (simp add: hist1 hist2 hist3)
qed

theorem failed_turn_propagates_witness:
  "fst (handle_msg stub_runner demo_g 0 (Message ''bad'') demo_s1)
      = Inl (RemoteInvocationFailed ''bad'')
   \<and> channel demo_s2 = channel demo_s1
   \<and> history_of demo_s2 0 = history_of demo_s1 0 @ [user_entry (Message ''bad'')]
   \<and> length (history_of demo_s2 0) = 3
   \<and> fst (handle_msg stub_runner demo_g 0 (Message ''hi'') demo_s2) = Inr ()
   \<and> history_of demo_s3 0 =
        history_of demo_s2 0
          @ [user_entry (Message ''hi''), assistant_entry \<lparr>final_output = ''ok''\<rparr>]
   \<and> channel demo_s3 = channel demo_s2 @ [(0, ''ok'')]"
proof -
  have p1: "set (fst (on_messages stub_runner demo_g 0 [Message ''hi''] (start_chat 0 chat_init)))
              \<subseteq> {Inr ()}"
    by (simp add: demo_turn1_results)
  have p3: "stub_runner (g_agent demo_g)
              (History (history_of demo_s1 0 @ [user_entry (Message ''bad'')]))
              (Some (g_config demo_g)) = Inl (RemoteInvocationFailed ''bad'')"
    using demo_turn2_run by (simp add: history_of_started[OF demo_s1_started])
  have p5: "stub_runner (g_agent demo_g)
              (History (history_of demo_s2 0 @ [user_entry (Message ''hi'')]))
              (Some (g_config demo_g)) = Inr \<lparr>final_output = ''ok''\<rparr>"
    using demo_turn3_run by (simp add: history_of_started[OF demo_s2_started])
  note th = failed_turn_propagates[where run = stub_runner and run' = stub_runner,
            OF p1 demo_s1_def p3 demo_s2_def p5 demo_s3_def]
  from th have "length (history_of demo_s2 0) = 2 * length [Message ''hi''] + 1"
    by blast
  then have c4: "length (history_of demo_s2 0) = 3"
    by simp
  from th have "channel demo_s3
                  = channel demo_s2 @ [(0, final_output \<lparr>final_output = ''ok''\<rparr>)]"
    by blast
  then have c7: "channel demo_s3 = channel demo_s2 @ [(0, ''ok'')]"
    by simp
  from th c4 c7 show ?thesis
    by blast
qed

text \<open>
  The claim as the specification states it has the handler surface an error artifact
  on the caller-visible channel. In the concrete conversation the second turn fails:
  the handler's result is the exception itself, and the channel after the turn is the
  channel before it.
\<close>

theorem error_artifact_counterexample:
  "fst (handle_msg stub_runner demo_g 0 (Message ''bad'') demo_s1)
      = Inl (RemoteInvocationFailed ''bad'')
   \<and> channel (snd (handle_msg stub_runner demo_g 0 (Message ''bad'') demo_s1)) = channel demo_s1
   \<and> \<not> (fst (handle_msg stub_runner demo_g 0 (Message ''bad'') demo_s1) = Inr ()
         \<and> channel (snd (handle_msg stub_runner demo_g 0 (Message ''bad'') demo_s1))
             \<noteq> channel demo_s1)"
  using handle_msg_fail(1,4)[where run = stub_runner, OF demo_s1_started demo_turn2_run]
  by simp

section \<open>The chat surface: starting a session\<close>

text \<open>
  C7. Whatever the state (and so whatever the session held before), the session's
  history is empty after the session-start handler has run, and it is empty again
  after the handler has run a second time, directly or after a conversation.
\<close>

theorem start_chat_resets_history:
  "history_of (start_chat sid s) sid = []
   \<and> history_of (start_chat sid (start_chat sid s)) sid = []
   \<and> history_of (start_chat sid (snd (on_messages run g sid msgs (start_chat sid s)))) sid = []"
  by (simp add: history_of_started[OF start_chat_started] start_chat_heap)


section \<open>The run configuration at the calls\<close>

text \<open>
  C4, as the code has it. The chat handler passes \<^verbatim>\<open>run_config=config\<close> at every
  call: each of the calls made while a list of messages is handled carries the
  module's run configuration, which bundles the model, the provider and the
  tracing flag. The command-line script calls \<^verbatim>\<open>Runner.run_sync(news_agent, query)\<close>
  with no \<^verbatim>\<open>run_config\<close> argument: every call it makes carries none.
\<close>

theorem run_config_passed_by_chat_only:
  "(\<forall>i \<in> set (drop (length (chat_invocations s))
               (chat_invocations (snd (on_messages run (chatbot_py p) sid msgs s)))).
       inv_config i = Some (g_config (chatbot_py p)))
   \<and> length (drop (length (chat_invocations s))
               (chat_invocations (snd (on_messages run (chatbot_py p) sid msgs s))))
       = length msgs
   \<and> g_config (chatbot_py p) =
       \<lparr>cfg_model = g_model (chatbot_py p), model_provider = g_provider (chatbot_py p),
        tracing_disabled = True\<rparr>
   \<and> (\<forall>i \<in> set (invocations (snd (news_agent_py run' p' ls))). inv_config i = None)"
proof (intro conjI)
  from on_messages_invocations[of run "chatbot_py p" sid msgs s] obtain invs where
    i: "chat_invocations (snd (on_messages run (chatbot_py p) sid msgs s))
          = chat_invocations s @ invs"
    and il: "length invs = length msgs"
    and ia: "\<forall>i\<in>set invs. inv_config i = Some (g_config (chatbot_py p))"
    by blast
  have d: "drop (length (chat_invocations s))
             (chat_invocations (snd (on_messages run (chatbot_py p) sid msgs s))) = invs"
    by (simp add: i)
  show "\<forall>i \<in> set (drop (length (chat_invocations s))
               (chat_invocations (snd (on_messages run (chatbot_py p) sid msgs s)))).
       inv_config i = Some (g_config (chatbot_py p))"
    unfolding d by (rule ia)
  show "length (drop (length (chat_invocations s))
               (chat_invocations (snd (on_messages run (chatbot_py p) sid msgs s))))
       = length msgs"
    unfolding d by (rule il)
next
  show "g_config (chatbot_py p) =
       \<lparr>cfg_model = g_model (chatbot_py p), model_provider = g_provider (chatbot_py p),
        tracing_disabled = True\<rparr>"
    by (simp add: chatbot_py_def Let_def)
next
  show "\<forall>i \<in> set (invocations (snd (news_agent_py run' p' ls))). inv_config i = None"
  proof (cases "py_not (getenv (load_dotenv p') ''OPENAI_API_KEY'')")
    case True
    then show ?thesis
      by (simp add: news_agent_py_def Let_def)
  next
    case False
    from cli_loop_grows[of run' ls cli_init] obtain calls where
      "invocations (snd (cli_loop run' ls cli_init)) = invocations cli_init @ calls"
      and "\<forall>c\<in>set calls. inv_config c = None"
      by blast
    then show ?thesis
      by (simp add: news_agent_py_loop[OF False] cli_init_def)
  qed
qed

theorem run_config_passed_by_chat_only_witness:
  "chat_call demo_g [user_entry (Message ''hi'')]
     \<in> set (chat_invocations (snd (on_messages stub_runner (chatbot_py proc_keys) 0
               [Message ''hi''] (start_chat 0 chat_init))))
   \<and> inv_config (chat_call demo_g [user_entry (Message ''hi'')])
       = Some (g_config (chatbot_py proc_keys))
   \<and> news_call ''cats''
       \<in> set (invocations (snd (news_agent_py stub_runner proc_keys [''cats'', ''exit''])))
   \<and> inv_config (news_call ''cats'') = None"
proof -
  let ?s' = "snd (on_messages stub_runner (chatbot_py proc_keys) 0 [Message ''hi'']
                (start_chat 0 chat_init))"
  have c0: "chat_invocations (start_chat 0 chat_init) = []"
    by (simp add: start_chat_invocations chat_init_def)
  have chat: "chat_invocations ?s' = [chat_call demo_g [user_entry (Message ''hi'')]]"
    using handle_msg_ok(5)[where run = stub_runner, OF demo_s0_started demo_turn1_run]
    by (simp add: on_messages_Cons demo_g_def c0 demo_s0_heap)
  have s: "stub_runner news_agent (Text ''cats'') None = Inr \<lparr>final_output = ''ok''\<rparr>"
    by simp
  have cli: "invocations (snd (news_agent_py stub_runner proc_keys [''cats'', ''exit'']))
               = [news_call ''cats'']"
    unfolding news_agent_py_loop[OF proc_keys_openai]
      cli_loop_ok[where run = stub_runner, OF lower_cats s]
      cli_loop_exit[OF lower_plain_exit]
    by (simp add: write_stdout_def cli_init_def)
  note th = run_config_passed_by_chat_only[of "start_chat 0 chat_init" stub_runner proc_keys 0
              "[Message ''hi'']" stub_runner proc_keys "[''cats'', ''exit'']"]
  have a: "inv_config (chat_call demo_g [user_entry (Message ''hi'')])
             = Some (g_config (chatbot_py proc_keys))"
    using th chat by (simp add: c0)
  have b: "inv_config (news_call ''cats'') = None"
    using th cli by simp
  show ?thesis
    using a b by (simp add: chat cli)
qed

text \<open>
  The claim as the specification states it (the run configuration is passed to every
  call of both surfaces) fails on the command-line script: with the lines
  \<^verbatim>\<open>cats\<close>, \<^verbatim>\<open>exit\<close> its one call has no run configuration.
\<close>

theorem cli_run_config_counterexample:
  "map inv_config (invocations (snd (news_agent_py stub_runner proc_keys [''cats'', ''exit''])))
     = [None]"
proof -
  have s: "stub_runner news_agent (Text ''cats'') None = Inr \<lparr>final_output = ''ok''\<rparr>"
    by simp
  show ?thesis
    unfolding news_agent_py_loop[OF proc_keys_openai]
      cli_loop_ok[where run = stub_runner, OF lower_cats s]
      cli_loop_exit[OF lower_plain_exit]
    by (simp add: write_stdout_def cli_init_def news_call_def)
qed

section \<open>Credentials at start-up\<close>

lemma config_py_fatal_iff:
  "config_py p = Inl (ValueError ''GOOGLE_API_KEY is not set. Please check your .env file.'')
     \<longleftrightarrow> environ p ''GOOGLE_API_KEY'' = None \<or> environ p ''GOOGLE_API_KEY'' = Some []"
  by (cases "environ p ''GOOGLE_API_KEY''") (simp_all add: config_py_def getenv_def Let_def)


text \<open>
  C10. The check of \<^verbatim>\<open>config.py\<close> looks at the process environment alone. The
  module ends with its \<^verbatim>\<open>ValueError\<close> exactly when \<^verbatim>\<open>GOOGLE_API_KEY\<close> is absent
  from the environment or empty there, it raises nothing else, and its result is the
  same whatever the \<^verbatim>\<open>.env\<close> file holds.
\<close>

theorem config_reads_environment_only:
  "(config_py p = Inl (ValueError ''GOOGLE_API_KEY is not set. Please check your .env file.'')
      \<longleftrightarrow> environ p ''GOOGLE_API_KEY'' = None \<or> environ p ''GOOGLE_API_KEY'' = Some [])
   \<and> ((\<exists>e. config_py p = Inl e)
      \<longleftrightarrow> environ p ''GOOGLE_API_KEY'' = None \<or> environ p ''GOOGLE_API_KEY'' = Some [])
   \<and> config_py (p\<lparr>dotenv_file := d\<rparr>) = config_py p"
proof (intro conjI)
  show "config_py p = Inl (ValueError ''GOOGLE_API_KEY is not set. Please check your .env file.'')
      \<longleftrightarrow> environ p ''GOOGLE_API_KEY'' = None \<or> environ p ''GOOGLE_API_KEY'' = Some []"
    by (rule config_py_fatal_iff)
  show "(\<exists>e. config_py p = Inl e)
      \<longleftrightarrow> environ p ''GOOGLE_API_KEY'' = None \<or> environ p ''GOOGLE_API_KEY'' = Some []"
    by (cases "environ p ''GOOGLE_API_KEY''") (simp_all add: config_py_def getenv_def Let_def)
  show "config_py (p\<lparr>dotenv_file := d\<rparr>) = config_py p"
    by (simp add: config_py_def getenv_def)
qed

theorem config_reads_environment_only_witness:
  "dotenv_file proc_dotenv_only ''GOOGLE_API_KEY'' = Some ''g-1''
   \<and> environ proc_dotenv_only ''GOOGLE_API_KEY'' = None
   \<and> config_py proc_dotenv_only
       = Inl (ValueError ''GOOGLE_API_KEY is not set. Please check your .env file.'')
   \<and> config_py (proc_dotenv_only\<lparr>dotenv_file := Map.empty\<rparr>) = config_py proc_dotenv_only"
  using config_reads_environment_only[of proc_dotenv_only Map.empty]
  by (simp add: proc_dotenv_only_def)



end
